theory Spec2Isabelle
  imports Complex_Main "HOL-Library.Word"
begin

unbundle bit_operations_syntax

section \<open>The frozen metadata record\<close>

text \<open>
  Modelled from the spec: the declaration of the frozen record
  \<^verbatim>\<open>thrift::metadata::metadata\<close> and of its element types, which is generated code
  (\<^verbatim>\<open>gen-cpp2/metadata_types.h\<close>) and not among the sources. The tables and fields are
  those of the spec's data model, under the names of the accessors that
  \<^verbatim>\<open>metadata_v2.cpp\<close> calls. The widths of the integer fields are not known here:
  indices, counts, inode numbers and chunk sizes are natural numbers, and where the source's
  arithmetic shows a width (the inode number that \<^verbatim>\<open>getattr\<close> stores) the width is
  written out there. What the source itself
  types is kept at its width: a mode word is \<^verbatim>\<open>uint16_t\<close> and the two cached offsets
  and the inode argument of the lookups are \<^verbatim>\<open>int\<close>, read as 32-bit two's complement.
  The field \<open>size_c\<close> is the \<^verbatim>\<open>size\<close> of a chunk.
\<close>

record chunk =
  block :: nat
  offset :: nat
  size_c :: nat

record directory =
  first_entry :: nat
  entry_count :: nat

text \<open>The field \<open>mode\<close> of an entry is an index into the modes table, not a mode word.\<close>

record entry =
  name_index :: nat
  mode :: nat
  inode :: nat

record metadata =
  chunks :: "chunk list"
  chunk_index :: "nat list"
  directories :: "directory list"
  entries :: "entry list"
  entry_index :: "nat list"
  modes :: "16 word list"
  names :: "string list"
  links :: "string list"
  link_index :: "nat list"
  chunk_index_offset :: nat
  link_index_offset :: nat

text \<open>
  The object \<^verbatim>\<open>metadata_v2_\<close>: the mapped record and the values its constructor
  caches (members \<^verbatim>\<open>meta_\<close>, \<^verbatim>\<open>root_\<close>, \<^verbatim>\<open>inode_offset_\<close>,
  \<^verbatim>\<open>chunk_index_offset_\<close>). The suffix \<open>_c\<close> marks a cached member whose plain name
  is taken.
\<close>

record metadata_v2 =
  meta :: metadata
  root_c :: entry
  inode_offset :: "32 word"
  chunk_index_offset_c :: "32 word"

text \<open>
  Reading a frozen table past its end is undefined behaviour in the source. The model makes
  it a value: every table read goes through \<open>table_at\<close>, and a read outside the table is the
  error \<open>OutOfBounds\<close>, which every caller passes on.
\<close>

datatype error = OutOfBounds

definition table_at :: "'a list \<Rightarrow> int \<Rightarrow> error + 'a" where
  "table_at xs i = (if 0 \<le> i \<and> i < int (length xs) then Inr (xs ! nat i) else Inl OutOfBounds)"

definition bnd :: "error + 'a \<Rightarrow> ('a \<Rightarrow> error + 'b) \<Rightarrow> error + 'b" where
  "bnd r f = (case r of Inl e \<Rightarrow> Inl e | Inr x \<Rightarrow> f x)"

subsection \<open>Mode bits\<close>

text \<open>
  The constants and type tests of \<^verbatim>\<open><sys/stat.h>\<close> (octal 0170000, 0040000, 0100000,
  0120000 for the type field; 04000, 02000, 01000 for setuid, setgid, sticky; 0400 down to 01
  for the permissions). The tests take the number they are applied to, so that they can be
  applied to a mode word and, as \<^verbatim>\<open>walk\<close> does, to the mode field of an entry.
\<close>

definition S_IFMT :: nat where "S_IFMT = 61440"
definition S_IFDIR :: nat where "S_IFDIR = 16384"
definition S_IFREG :: nat where "S_IFREG = 32768"
definition S_IFLNK :: nat where "S_IFLNK = 40960"

definition S_ISUID :: "16 word" where "S_ISUID = 2048"
definition S_ISGID :: "16 word" where "S_ISGID = 1024"
definition S_ISVTX :: "16 word" where "S_ISVTX = 512"
definition S_IRUSR :: "16 word" where "S_IRUSR = 256"
definition S_IWUSR :: "16 word" where "S_IWUSR = 128"
definition S_IXUSR :: "16 word" where "S_IXUSR = 64"
definition S_IRGRP :: "16 word" where "S_IRGRP = 32"
definition S_IWGRP :: "16 word" where "S_IWGRP = 16"
definition S_IXGRP :: "16 word" where "S_IXGRP = 8"
definition S_IROTH :: "16 word" where "S_IROTH = 4"
definition S_IWOTH :: "16 word" where "S_IWOTH = 2"
definition S_IXOTH :: "16 word" where "S_IXOTH = 1"

definition S_ISDIR :: "nat \<Rightarrow> bool" where
  "S_ISDIR m = (m AND S_IFMT = S_IFDIR)"

definition S_ISREG :: "nat \<Rightarrow> bool" where
  "S_ISREG m = (m AND S_IFMT = S_IFREG)"

definition S_ISLNK :: "nat \<Rightarrow> bool" where
  "S_ISLNK m = (m AND S_IFMT = S_IFLNK)"


subsection \<open>The dumper's mode string\<close>

text \<open>
  \<^verbatim>\<open>modestring\<close> writes thirteen times a letter or a dash. \<open>flag\<close> is the expression
  \<^verbatim>\<open>(mode & BIT ? 'c' : '-')\<close> that it uses for all positions but the fourth.
\<close>

definition flag :: "16 word \<Rightarrow> 16 word \<Rightarrow> char \<Rightarrow> char" where
  "flag m b c = (if m AND b \<noteq> 0 then c else CHR ''-'')"

definition modestring :: "16 word \<Rightarrow> string" where
  "modestring m =
     [flag m S_ISUID CHR ''U'',
      flag m S_ISGID CHR ''G'',
      flag m S_ISVTX CHR ''S'',
      (if S_ISDIR (unat m) then CHR ''d'' else if S_ISLNK (unat m) then CHR ''l'' else CHR ''-''),
      flag m S_IRUSR CHR ''r'',
      flag m S_IWUSR CHR ''w'',
      flag m S_IXUSR CHR ''x'',
      flag m S_IRGRP CHR ''r'',
      flag m S_IWGRP CHR ''w'',
      flag m S_IXGRP CHR ''x'',
      flag m S_IROTH CHR ''r'',
      flag m S_IWOTH CHR ''w'',
      flag m S_IXOTH CHR ''x'']"

subsection \<open>Entry accessors\<close>

definition entry_mode :: "metadata_v2 \<Rightarrow> entry \<Rightarrow> error + 16 word" where
  "entry_mode h e = table_at (modes (meta h)) (int (mode e))"

definition entry_name :: "metadata_v2 \<Rightarrow> entry \<Rightarrow> error + string" where
  "entry_name h e = table_at (names (meta h)) (int (name_index e))"


definition getdir :: "metadata_v2 \<Rightarrow> entry \<Rightarrow> error + directory" where
  "getdir h e = table_at (directories (meta h)) (int (inode e))"

subsection \<open>File sizes\<close>






subsection \<open>Attributes\<close>




subsection \<open>Lookup by inode\<close>

text \<open>
  \<^verbatim>\<open>get_entry\<close> computes on \<^verbatim>\<open>int\<close>s: it subtracts the offset from its argument in
  place and compares the result with the size of the entry index converted to \<^verbatim>\<open>int\<close>.
  Overflow of the subtraction is undefined in the source; the model wraps around, as the
  conversion of the size does.
\<close>

definition get_entry :: "metadata_v2 \<Rightarrow> 32 word \<Rightarrow> error + entry option" where
  "get_entry h ino =
     (let ino = ino - inode_offset h
      in if 0 \<le> sint ino \<and> sint ino < sint (word_of_nat (length (entry_index (meta h))) :: 32 word)
         then bnd (table_at (entry_index (meta h)) (sint ino))
                (\<lambda>ix. bnd (table_at (entries (meta h)) (int ix)) (\<lambda>e. Inr (Some e)))
         else Inr None)"

definition find_inode :: "metadata_v2 \<Rightarrow> 32 word \<Rightarrow> error + entry option" where
  "find_inode h ino = get_entry h ino"

subsection \<open>Lookup by name in a directory\<close>

text \<open>
  \<^verbatim>\<open>std::string_view::compare\<close>: the common prefix is compared byte by byte, as
  unsigned values, and on a tie the shorter string is the smaller. The result is negative,
  zero or positive; the model returns \<open>-1\<close>, \<open>0\<close> or \<open>1\<close>.
\<close>

fun traits_compare :: "string \<Rightarrow> string \<Rightarrow> nat \<Rightarrow> int" where
  "traits_compare (a # as) (b # bs) (Suc n) =
     (if (of_char a :: nat) < of_char b then - 1
      else if (of_char b :: nat) < of_char a then 1
      else traits_compare as bs n)"
| "traits_compare _ _ _ = 0"

definition compare :: "string \<Rightarrow> string \<Rightarrow> int" where
  "compare s t =
     (let ret = traits_compare s t (min (length s) (length t))
      in if ret = 0
         then (if length s = length t then 0 else if length s < length t then - 1 else 1)
         else ret)"

text \<open>
  \<^verbatim>\<open>std::lower_bound\<close> over the index range \<^verbatim>\<open>boost::irange(first, first + count)\<close>,
  as the standard library implements it: bisection on the length of the remaining range,
  moving right when the comparator holds at the middle. The comparator is the lambda of the
  source, \<^verbatim>\<open>entry_name(meta_.entries()[it]).compare(name)\<close>: an \<^verbatim>\<open>int\<close> used as a
  \<^verbatim>\<open>bool\<close>, so it holds when the result of the comparison is not zero.
\<close>

definition comparator :: "metadata_v2 \<Rightarrow> nat \<Rightarrow> string \<Rightarrow> error + bool" where
  "comparator h it name =
     bnd (table_at (entries (meta h)) (int it))
       (\<lambda>e. bnd (entry_name h e) (\<lambda>s. Inr (compare s name \<noteq> 0)))"

function lower_bound :: "metadata_v2 \<Rightarrow> string \<Rightarrow> nat \<Rightarrow> nat \<Rightarrow> error + nat" where
  "lower_bound h name first len =
     (if 0 < len
      then (let half = len div 2; middle = first + half
            in case comparator h middle name of
                 Inl err \<Rightarrow> Inl err
               | Inr True \<Rightarrow> lower_bound h name (middle + 1) (len - half - 1)
               | Inr False \<Rightarrow> lower_bound h name first half)
      else Inr first)"
  by pat_completeness auto
termination
  by (relation "measure (\<lambda>(h, name, first, len). len)") auto

declare lower_bound.simps [simp del]

definition find_dir :: "metadata_v2 \<Rightarrow> directory \<Rightarrow> string \<Rightarrow> error + entry option" where
  "find_dir h dir name =
     (let first = first_entry dir; last = first + entry_count dir
      in bnd (lower_bound h name first (entry_count dir))
           (\<lambda>it. if it \<noteq> last
                 then bnd (table_at (entries (meta h)) (int it))
                        (\<lambda>cand. bnd (entry_name h cand)
                           (\<lambda>s. Inr (if s = name then Some cand else None)))
                 else Inr None))"

subsection \<open>Lookup by path\<close>

text \<open>
  A path is a C string: the model takes the bytes before the terminating zero.
  \<open>strchr\<close> returns the position of the first occurrence, or \<open>None\<close> for the null pointer.
\<close>

fun strchr :: "string \<Rightarrow> char \<Rightarrow> nat option" where
  "strchr [] c = None"
| "strchr (x # xs) c = (if x = c then Some 0 else map_option Suc (strchr xs c))"

text \<open>The second loop of \<^verbatim>\<open>find(const char*)\<close>, from the current entry and the rest of the path.\<close>

function find_loop :: "metadata_v2 \<Rightarrow> entry \<Rightarrow> string \<Rightarrow> error + entry option" where
  "find_loop h e path =
     (if path \<noteq> []
      then (let next = strchr path CHR ''/'';
                clen = (case next of Some n \<Rightarrow> n | None \<Rightarrow> length path)
            in case getdir h e of
                 Inl err \<Rightarrow> Inl err
               | Inr dir \<Rightarrow>
                  (case find_dir h dir (take clen path) of
                     Inl err \<Rightarrow> Inl err
                   | Inr None \<Rightarrow> Inr None
                   | Inr (Some e') \<Rightarrow>
                       find_loop h e' (case next of Some n \<Rightarrow> drop (n + 1) path
                                                    | None \<Rightarrow> drop clen path)))
      else Inr (Some e))"
  by pat_completeness auto
termination
  by (relation "measure (\<lambda>(h, e, path). length path)") (auto split: option.splits)

declare find_loop.simps [simp del]

definition find_path :: "metadata_v2 \<Rightarrow> string \<Rightarrow> error + entry option" where
  "find_path h path = find_loop h (root_c h) (dropWhile (\<lambda>c. c = CHR ''/'') path)"

definition find_child :: "metadata_v2 \<Rightarrow> 32 word \<Rightarrow> string \<Rightarrow> error + entry option" where
  "find_child h ino name =
     bnd (get_entry h ino)
       (\<lambda>r. case r of
               Some e \<Rightarrow> bnd (getdir h e) (\<lambda>dir. find_dir h dir name)
             | None \<Rightarrow> Inr None)"

subsection \<open>Tree walk\<close>

text \<open>
  \<^verbatim>\<open>walk(entry, func)\<close> recurses through the directory table, and nothing in it bounds the
  depth: a record whose directory lists itself makes it run forever. The model counts the calls
  down from a fuel; \<open>None\<close> is a walk that has not returned within the fuel. The visitor
  \<^verbatim>\<open>func\<close> is modelled by the list of the entries it has been called with, in call order.
\<close>

fun walk_entry :: "nat \<Rightarrow> metadata_v2 \<Rightarrow> entry \<Rightarrow> entry list \<Rightarrow> (error + entry list) option"
  and walk_loop :: "nat \<Rightarrow> metadata_v2 \<Rightarrow> nat \<Rightarrow> nat \<Rightarrow> entry list \<Rightarrow> (error + entry list) option"
where
  "walk_entry 0 h e visited = None"
| "walk_entry (Suc k) h e visited =
     (let visited = visited @ [e]
      in if S_ISDIR (mode e)
         then (case getdir h e of
                 Inl err \<Rightarrow> Some (Inl err)
               | Inr dir \<Rightarrow>
                   (let cur = first_entry dir; end = cur + entry_count dir
                    in walk_loop k h cur end visited))
         else Some (Inr visited))"
| "walk_loop 0 h cur end visited = None"
| "walk_loop (Suc k) h cur end visited =
     (if cur < end
      then (case table_at (entries (meta h)) (int cur) of
              Inl err \<Rightarrow> Some (Inl err)
            | Inr e \<Rightarrow>
                (case walk_entry k h e visited of
                   None \<Rightarrow> None
                 | Some (Inl err) \<Rightarrow> Some (Inl err)
                 | Some (Inr visited') \<Rightarrow> walk_loop k h (cur + 1) end visited'))
      else Some (Inr visited))"

definition walk :: "nat \<Rightarrow> metadata_v2 \<Rightarrow> (error + entry list) option" where
  "walk k h = walk_entry k h (root_c h) []"

subsection \<open>Opening a record\<close>

text \<open>
  The constructor of \<^verbatim>\<open>metadata_v2_\<close>. \<^verbatim>\<open>mapFrozen\<close> belongs to the serialisation
  library: the model starts from the tables it has mapped. The constructor then reads the root
  entry and caches the two offsets; the rest of its body only logs.
\<close>

definition metadata_v2_open :: "metadata \<Rightarrow> 32 word \<Rightarrow> error + metadata_v2" where
  "metadata_v2_open m off =
     bnd (table_at (entry_index m) 0)
       (\<lambda>ix. bnd (table_at (entries m) (int ix))
          (\<lambda>r. Inr \<lparr>meta = m, root_c = r, inode_offset = off,
                     chunk_index_offset_c = word_of_nat (chunk_index_offset m)\<rparr>))"

section \<open>Sample records\<close>

text \<open>
  Mode words used below: octal 040755 for a directory, 0100644 for a regular file and
  0120777 for a symbolic link.
\<close>

definition mode_dir :: "16 word" where "mode_dir = 16877"
definition mode_reg :: "16 word" where "mode_reg = 33188"
definition mode_lnk :: "16 word" where "mode_lnk = 41471"

text \<open>
  A root directory (inode 0) with the three empty regular files \<open>a\<close>, \<open>b\<close>, \<open>c\<close>
  (inodes 1 to 3), stored in name order.
\<close>

definition abc_meta :: metadata where
  "abc_meta = \<lparr>
     chunks = [],
     chunk_index = [0, 0, 0, 0],
     directories = [\<lparr>first_entry = 1, entry_count = 3\<rparr>],
     entries = [\<lparr>name_index = 0, mode = 0, inode = 0\<rparr>,
                \<lparr>name_index = 1, mode = 1, inode = 1\<rparr>,
                \<lparr>name_index = 2, mode = 1, inode = 2\<rparr>,
                \<lparr>name_index = 3, mode = 1, inode = 3\<rparr>],
     entry_index = [0, 1, 2, 3],
     modes = [mode_dir, mode_reg],
     names = ['''', ''a'', ''b'', ''c''],
     links = [],
     link_index = [],
     chunk_index_offset = 1,
     link_index_offset = 4\<rparr>"

definition abc :: metadata_v2 where
  "abc = \<lparr>meta = abc_meta, root_c = \<lparr>name_index = 0, mode = 0, inode = 0\<rparr>,
           inode_offset = 0, chunk_index_offset_c = 1\<rparr>"

text \<open>
  A root directory with one directory \<open>a\<close> (inode 1) that holds one regular file \<open>b\<close>
  (inode 2).
\<close>

definition nested_meta :: metadata where
  "nested_meta = \<lparr>
     chunks = [],
     chunk_index = [0, 0],
     directories = [\<lparr>first_entry = 1, entry_count = 1\<rparr>,
                    \<lparr>first_entry = 2, entry_count = 1\<rparr>],
     entries = [\<lparr>name_index = 0, mode = 0, inode = 0\<rparr>,
                \<lparr>name_index = 1, mode = 0, inode = 1\<rparr>,
                \<lparr>name_index = 2, mode = 1, inode = 2\<rparr>],
     entry_index = [0, 1, 2],
     modes = [mode_dir, mode_reg],
     names = ['''', ''a'', ''b''],
     links = [],
     link_index = [],
     chunk_index_offset = 2,
     link_index_offset = 3\<rparr>"

definition nested :: metadata_v2 where
  "nested = \<lparr>meta = nested_meta, root_c = \<lparr>name_index = 0, mode = 0, inode = 0\<rparr>,
              inode_offset = 0, chunk_index_offset_c = 2\<rparr>"

text \<open>
  A root directory with the regular file \<open>big\<close> (inode 1), made of three chunks of 4096,
  4096 and 17 bytes, and the symbolic link \<open>z\<close> (inode 2) to \<open>../a\<close>. The external inode
  numbers start at 100.
\<close>

definition big_meta :: metadata where
  "big_meta = \<lparr>
     chunks = [\<lparr>block = 0, offset = 0, size_c = 4096\<rparr>,
               \<lparr>block = 0, offset = 4096, size_c = 4096\<rparr>,
               \<lparr>block = 0, offset = 8192, size_c = 17\<rparr>],
     chunk_index = [0, 3],
     directories = [\<lparr>first_entry = 1, entry_count = 2\<rparr>],
     entries = [\<lparr>name_index = 0, mode = 0, inode = 0\<rparr>,
                \<lparr>name_index = 1, mode = 1, inode = 1\<rparr>,
                \<lparr>name_index = 2, mode = 2, inode = 2\<rparr>],
     entry_index = [0, 1, 2],
     modes = [mode_dir, mode_reg, mode_lnk],
     names = ['''', ''big'', ''z''],
     links = [''../a''],
     link_index = [0, 0, 2],
     chunk_index_offset = 1,
     link_index_offset = 2\<rparr>"

definition big :: metadata_v2 where
  "big = \<lparr>meta = big_meta, root_c = \<lparr>name_index = 0, mode = 0, inode = 0\<rparr>,
           inode_offset = 100, chunk_index_offset_c = 1\<rparr>"


definition big_max :: metadata_v2 where
  "big_max = \<lparr>meta = big_meta, root_c = \<lparr>name_index = 0, mode = 0, inode = 0\<rparr>,
               inode_offset = 2147483647, chunk_index_offset_c = 1\<rparr>"

definition big_file :: entry where
  "big_file = \<lparr>name_index = 1, mode = 1, inode = 1\<rparr>"


text \<open>
  The first record again, with a root directory that claims ten children where the entries
  table has four entries in all.
\<close>

definition bad_extent_meta :: metadata where
  "bad_extent_meta = abc_meta\<lparr>directories := [\<lparr>first_entry = 1, entry_count = 10\<rparr>]\<rparr>"

section \<open>Well-formed entries\<close>


section \<open>Properties\<close>

lemmas tbl_simps = table_at_def bnd_def entry_name_def entry_mode_def getdir_def

lemmas find_simps = find_path_def find_loop.simps find_dir_def lower_bound.simps comparator_def
  compare_def

lemmas mode_bits = S_ISUID_def S_ISGID_def S_ISVTX_def S_IRUSR_def S_IWUSR_def S_IXUSR_def
  S_IRGRP_def S_IWGRP_def S_IXGRP_def S_IROTH_def S_IWOTH_def S_IXOTH_def

lemmas type_bits = S_ISDIR_def S_ISREG_def S_ISLNK_def S_IFMT_def S_IFDIR_def S_IFREG_def
  S_IFLNK_def

text \<open>The sample handles are what the constructor makes of the sample tables.\<close>

lemma abc_open: "metadata_v2_open abc_meta 0 = Inr abc"
  by (simp add: metadata_v2_open_def abc_def abc_meta_def table_at_def bnd_def)

lemma nested_open: "metadata_v2_open nested_meta 0 = Inr nested"
  by (simp add: metadata_v2_open_def nested_def nested_meta_def table_at_def bnd_def)

lemma big_open: "metadata_v2_open big_meta 100 = Inr big"
  by (simp add: metadata_v2_open_def big_def big_meta_def table_at_def bnd_def)

subsection \<open>Lookup by name\<close>

text \<open>
  Claim C1 says that looking up the name of any child of a directory with strictly sorted
  children returns that child. The comparator handed to \<^verbatim>\<open>std::lower_bound\<close> returns the
  result of \<^verbatim>\<open>compare\<close> itself, which is true for a greater name as well as for a smaller
  one, so the bisection moves right whenever the middle name differs from the one sought. In
  the record \<open>abc\<close> the root lists \<open>a\<close>, \<open>b\<close>, \<open>c\<close> in order; the entry at position 1 is
  named \<open>a\<close>, and the lookup of \<open>a\<close> in the root comes back empty.
\<close>

theorem find_dir_abc_misses_a:
  "metadata_v2_open abc_meta 0 = Inr abc \<and>
   getdir abc (root_c abc) = Inr \<lparr>first_entry = 1, entry_count = 3\<rparr> \<and>
   map (\<lambda>it. bnd (table_at (entries (meta abc)) it) (entry_name abc)) [1, 2, 3] =
     [Inr ''a'', Inr ''b'', Inr ''c''] \<and>
   compare ''a'' ''b'' < 0 \<and> compare ''b'' ''c'' < 0 \<and>
   table_at (entries (meta abc)) 1 = Inr \<lparr>name_index = 1, mode = 1, inode = 1\<rparr> \<and>
   find_dir abc \<lparr>first_entry = 1, entry_count = 3\<rparr> ''a'' = Inr None \<and>
   find_dir abc \<lparr>first_entry = 1, entry_count = 3\<rparr> ''b'' =
     Inr (Some \<lparr>name_index = 2, mode = 1, inode = 2\<rparr>)"
  using abc_open by (simp add: find_simps tbl_simps abc_def abc_meta_def)

text \<open>
  What the lookup does keep: \<^verbatim>\<open>compare\<close> is zero for equal strings only, the bisection
  stays within the range it was given, and an entry that is returned is a child of the
  directory and has the name that was sought. A name that no child has is never found.
\<close>

lemma traits_compare_0:
  "n \<le> length s \<Longrightarrow> n \<le> length t \<Longrightarrow> traits_compare s t n = 0 \<longleftrightarrow> take n s = take n t"
proof (induction s t n rule: traits_compare.induct)
  case (1 a as b bs n)
  have "(of_char a :: nat) = of_char b \<longleftrightarrow> a = b"
    by simp
  then show ?case
    using 1 by (auto simp: not_less)
qed auto

lemma compare_0: "compare s t = 0 \<longleftrightarrow> s = t"
proof -
  have "traits_compare s t (min (length s) (length t)) = 0 \<longleftrightarrow>
      take (min (length s) (length t)) s = take (min (length s) (length t)) t"
    by (rule traits_compare_0) simp_all
  then show ?thesis
    by (auto simp: compare_def Let_def min_def split: if_splits)
qed

lemma lower_bound_range:
  "lower_bound h name first len = Inr it \<Longrightarrow> first \<le> it \<and> it \<le> first + len"
proof (induction h name first len arbitrary: it rule: lower_bound.induct)
  case (1 h name first len)
  show ?case
  proof (cases "0 < len")
    case False
    then show ?thesis
      using "1.prems" by (simp add: lower_bound.simps)
  next
    case True
    show ?thesis
    proof (cases "comparator h (first + len div 2) name")
      case (Inl err)
      then show ?thesis
        using "1.prems" True by (simp add: lower_bound.simps [of h name first len] Let_def)
    next
      case (Inr b)
      show ?thesis
      proof (cases b)
        case True
        then have "lower_bound h name (first + len div 2 + 1) (len - len div 2 - 1) = Inr it"
          using "1.prems" Inr \<open>0 < len\<close>
          by (simp add: lower_bound.simps [of h name first len] Let_def)
        then have "first + len div 2 + 1 \<le> it \<and> it \<le> first + len div 2 + 1 + (len - len div 2 - 1)"
          using "1.IH"(1) [OF \<open>0 < len\<close> refl refl Inr] True by simp
        then show ?thesis
          using \<open>0 < len\<close> by auto
      next
        case False
        then have "lower_bound h name first (len div 2) = Inr it"
          using "1.prems" Inr \<open>0 < len\<close>
          by (simp add: lower_bound.simps [of h name first len] Let_def)
        then have "first \<le> it \<and> it \<le> first + len div 2"
          using "1.IH"(2) [OF \<open>0 < len\<close> refl refl Inr] False by simp
        then show ?thesis
          by auto
      qed
    qed
  qed
qed

lemma find_dir_sound:
  assumes "find_dir h dir name = Inr (Some c)"
  shows "\<exists>it. first_entry dir \<le> it \<and> it < first_entry dir + entry_count dir \<and>
      table_at (entries (meta h)) (int it) = Inr c \<and> entry_name h c = Inr name"
proof -
  from assms obtain it where it: "lower_bound h name (first_entry dir) (entry_count dir) = Inr it"
    and ne: "it \<noteq> first_entry dir + entry_count dir"
    and c: "table_at (entries (meta h)) (int it) = Inr c" "entry_name h c = Inr name"
    by (auto simp: find_dir_def Let_def bnd_def split: sum.splits if_splits)
  from lower_bound_range [OF it] ne have "first_entry dir \<le> it \<and> it < first_entry dir + entry_count dir"
    by simp
  with c show ?thesis
    by blast
qed

subsection \<open>A file in the middle of a path\<close>

text \<open>
  Claim C3 says that a path which passes through an entry that is not a directory is answered
  with "not found", without a read outside the directories table. The path loop calls
  \<^verbatim>\<open>getdir\<close> on every resolved entry without looking at its mode. In the record \<open>abc\<close>
  the path \<open>/b\<close> resolves to a regular file with inode 2; the directories table has one
  element, and resolving \<open>/b/x\<close> reads it at index 2.
\<close>

theorem find_path_through_file:
  "metadata_v2_open abc_meta 0 = Inr abc \<and>
   find_path abc ''/b'' = Inr (Some \<lparr>name_index = 2, mode = 1, inode = 2\<rparr>) \<and>
   entry_mode abc \<lparr>name_index = 2, mode = 1, inode = 2\<rparr> = Inr mode_reg \<and>
   \<not> S_ISDIR (unat mode_reg) \<and>
   length (directories (meta abc)) = 1 \<and>
   find_path abc ''/b/x'' = Inl OutOfBounds"
  using abc_open by (simp add: find_simps tbl_simps abc_def abc_meta_def type_bits mode_reg_def)

subsection \<open>Tree walk\<close>

text \<open>
  Claim C4 says that the walk from the root calls the visitor once for every entry, parents
  before children, as many times as the entry index has elements. \<^verbatim>\<open>walk\<close> tests
  \<^verbatim>\<open>S_ISDIR\<close> on the mode field of the entry, which is an index into the modes table, not
  on the mode word. In the record \<open>abc\<close> the root has mode index 0: whatever the fuel, the
  walk calls the visitor on the root and returns, while the entry index has four elements.
\<close>

theorem walk_abc_stops_at_root:
  "metadata_v2_open abc_meta 0 = Inr abc \<and>
   walk (Suc k) abc = Some (Inr [root_c abc]) \<and>
   entry_mode abc (root_c abc) = Inr mode_dir \<and> S_ISDIR (unat mode_dir) \<and>
   length (entry_index (meta abc)) = 4"
  using abc_open by (simp add: walk_def abc_def abc_meta_def tbl_simps type_bits mode_dir_def)

subsection \<open>Opening a record\<close>

text \<open>
  The record \<open>bad_extent_meta\<close> has a directory whose children would end at entry 11 of a
  table of four entries. Opening it succeeds.
\<close>

theorem open_bad_extent_counterexample:
  "length (entries bad_extent_meta) = 4 \<and>
   directories bad_extent_meta = [\<lparr>first_entry = 1, entry_count = 10\<rparr>] \<and>
   metadata_v2_open bad_extent_meta 0 =
     Inr \<lparr>meta = bad_extent_meta, root_c = \<lparr>name_index = 0, mode = 0, inode = 0\<rparr>,
          inode_offset = 0, chunk_index_offset_c = 1\<rparr>"
  by (simp add: metadata_v2_open_def bad_extent_meta_def abc_meta_def tbl_simps)

text \<open>
  Claim C5, amended. The constructor does not look at directory extents. Once the library has
  mapped the tables, opening succeeds whenever the first element of the entry index points into
  the entries table, whatever the directories table holds; the handle keeps the tables as they
  are, the root entry \<open>entries[entry_index[0]]\<close> and the two offsets.
\<close>

theorem metadata_v2_open_ignores_extents:
  "entry_index m \<noteq> [] \<Longrightarrow> entry_index m ! 0 < length (entries m) \<Longrightarrow>
   metadata_v2_open (m\<lparr>directories := ds\<rparr>) off =
     Inr \<lparr>meta = m\<lparr>directories := ds\<rparr>, root_c = entries m ! (entry_index m ! 0),
          inode_offset = off, chunk_index_offset_c = word_of_nat (chunk_index_offset m)\<rparr>"
  by (simp add: metadata_v2_open_def tbl_simps)

theorem metadata_v2_open_ignores_extents_witness:
  "entry_index abc_meta \<noteq> [] \<and> entry_index abc_meta ! 0 < length (entries abc_meta) \<and>
   metadata_v2_open (abc_meta\<lparr>directories := [\<lparr>first_entry = 1, entry_count = 10\<rparr>]\<rparr>) 7 =
     Inr \<lparr>meta = abc_meta\<lparr>directories := [\<lparr>first_entry = 1, entry_count = 10\<rparr>]\<rparr>,
          root_c = \<lparr>name_index = 0, mode = 0, inode = 0\<rparr>,
          inode_offset = 7, chunk_index_offset_c = 1\<rparr>"
proof -
  have ne: "entry_index abc_meta \<noteq> []"
    by (simp add: abc_meta_def)
  have lt: "entry_index abc_meta ! 0 < length (entries abc_meta)"
    by (simp add: abc_meta_def)
  have "entries abc_meta ! (entry_index abc_meta ! 0) = \<lparr>name_index = 0, mode = 0, inode = 0\<rparr>"
    by (simp add: abc_meta_def)
  moreover have "chunk_index_offset abc_meta = 1"
    by (simp add: abc_meta_def)
  ultimately show ?thesis
    using ne lt metadata_v2_open_ignores_extents [OF ne lt, of "[\<lparr>first_entry = 1, entry_count = 10\<rparr>]" 7]
    by simp
qed

subsection \<open>The mode string\<close>

text \<open>The mode string of a directory with permissions 0755 has thirteen characters.\<close>

theorem modestring_length_counterexample:
  "modestring mode_dir = ''---drwxr-xr-x'' \<and> length (modestring mode_dir) \<noteq> 12"
  by (simp add: modestring_def flag_def mode_dir_def mode_bits type_bits)

text \<open>
  Claim C9, amended. For every 16-bit mode word the mode string has exactly 13 characters: the
  setuid, setgid and sticky indicators, the type indicator, and three \<open>rwx\<close> triples. Each
  position holds its letter of \<open>UGSdrwxrwxrwx\<close> or a dash, and the type position may also hold
  \<open>l\<close>.
\<close>

theorem modestring_shape:
  "length (modestring m) = 13 \<and>
   list_all2 (\<lambda>c t. c = t \<or> c = CHR ''-'' \<or> (t = CHR ''d'' \<and> c = CHR ''l''))
     (modestring m) ''UGSdrwxrwxrwx''"
  by (simp add: modestring_def flag_def)

subsection \<open>Lookup by inode\<close>

text \<open>
  The subtraction in \<^verbatim>\<open>get_entry\<close> is a subtraction of \<^verbatim>\<open>int\<close>s and the size of
  the entry index is converted to \<^verbatim>\<open>int\<close>. On words the subtraction wraps around;
  when the difference of the two numbers fits 32 bits it is the difference, and an entry index
  of fewer than \<open>2\<^sup>3\<^sup>1\<close> elements keeps its size.
\<close>

lemma sint_sub_no_overflow:
  fixes a b :: "32 word"
  assumes "- (2 ^ 31) \<le> sint a - sint b" "sint a - sint b < 2 ^ 31"
  shows "sint (a - b) = sint a - sint b"
  using assms by (simp add: sint_word_diff signed_take_bit_int_eq_self)

lemma sint_of_nat_small:
  "n < 2 ^ 31 \<Longrightarrow> sint (word_of_nat n :: 32 word) = int n"
  by (simp add: signed_of_nat signed_take_bit_int_eq_self)

lemma open_fields:
  assumes "metadata_v2_open m off = Inr h"
  shows "meta h = m" "inode_offset h = off" "entry_index m \<noteq> []"
    "entry_index m ! 0 < length (entries m)" "root_c h = entries m ! (entry_index m ! 0)"
  using assms by (auto simp: metadata_v2_open_def tbl_simps split: if_splits)

lemma get_entry_in_range:
  assumes "length (entry_index (meta h)) < 2 ^ 31"
    and "- (2 ^ 31) \<le> sint i - sint (inode_offset h)" "sint i - sint (inode_offset h) < 2 ^ 31"
  shows "get_entry h i =
     (if 0 \<le> sint i - sint (inode_offset h) \<and>
         sint i - sint (inode_offset h) < int (length (entry_index (meta h)))
      then bnd (table_at (entries (meta h))
             (int (entry_index (meta h) ! nat (sint i - sint (inode_offset h)))))
             (\<lambda>e. Inr (Some e))
      else Inr None)"
  using assms
  by (simp add: get_entry_def Let_def sint_sub_no_overflow sint_of_nat_small table_at_def bnd_def)

text \<open>
  With the inode offset \<open>2\<^sup>3\<^sup>1 - 1\<close> and the argument \<open>-2\<^sup>3\<^sup>1\<close> the difference is
  \<open>-(2\<^sup>3\<^sup>2 - 1)\<close>, far below 0, and the subtraction of \<^verbatim>\<open>int\<close>s wraps around to 1:
  the lookup returns the entry of inode 1.
\<close>

theorem find_inode_overflow_counterexample:
  "metadata_v2_open big_meta 2147483647 = Inr big_max \<and>
   length (entry_index (meta big_max)) = 3 \<and>
   sint (- 2147483648 :: 32 word) - sint (inode_offset big_max) = - 4294967295 \<and>
   find_inode big_max (- 2147483648) = Inr (Some big_file)"
  by (simp add: metadata_v2_open_def find_inode_def get_entry_def Let_def tbl_simps big_max_def
      big_meta_def big_file_def)

text \<open>
  An entry index of \<open>2\<^sup>3\<^sup>1\<close> elements has a negative size once converted to
  \<^verbatim>\<open>int\<close>: no inode is found in it, not even the first.
\<close>

lemma find_inode_huge_index:
  assumes "length (entry_index (meta h)) = 2 ^ 31"
  shows "find_inode h (inode_offset h) = Inr None"
proof -
  have "sint (word_of_nat (length (entry_index (meta h))) :: 32 word) = - (2 ^ 31)"
    unfolding assms by simp
  then show ?thesis
    by (simp add: find_inode_def get_entry_def Let_def)
qed

text \<open>
  Claim C8, amended. \<^verbatim>\<open>find(int)\<close> subtracts the inode offset and checks the result
  against the size of the entry index. Take a record whose entry index has fewer than
  \<open>2\<^sup>3\<^sup>1\<close> elements and an argument \<open>i\<close> whose distance \<open>d\<close> to the offset fits an
  \<^verbatim>\<open>int\<close>. When \<open>0 \<le> d < size\<close> the result is never "not found", and it is the entry
  \<open>entries[entry_index[d]]\<close> whenever that entry exists; otherwise the result is "not found",
  not an error. On an opened record \<open>find(inode_offset + 0)\<close> is the root entry, and with an
  offset that is not negative \<open>find(-1)\<close> is "not found".
\<close>

theorem find_inode_law:
  fixes h :: metadata_v2 and i :: "32 word"
  defines "d \<equiv> sint i - sint (inode_offset h)"
    and "n \<equiv> length (entry_index (meta h))"
  shows
  "(n < 2 ^ 31 \<and> - (2 ^ 31) \<le> d \<and> d < 2 ^ 31 \<longrightarrow>
      (0 \<le> d \<and> d < int n \<longrightarrow>
         find_inode h i \<noteq> Inr None \<and>
         (entry_index (meta h) ! nat d < length (entries (meta h)) \<longrightarrow>
            find_inode h i = Inr (Some (entries (meta h) ! (entry_index (meta h) ! nat d))))) \<and>
      (\<not> (0 \<le> d \<and> d < int n) \<longrightarrow> find_inode h i = Inr None)) \<and>
   (metadata_v2_open m off = Inr h \<and> n < 2 ^ 31 \<longrightarrow>
      find_inode h (off + 0) = Inr (Some (root_c h)) \<and>
      root_c h = entries m ! (entry_index m ! 0)) \<and>
   (0 \<le> sint (inode_offset h) \<longrightarrow> find_inode h (- 1) = Inr None)"
proof (intro conjI impI)
  assume a: "n < 2 ^ 31 \<and> - (2 ^ 31) \<le> d \<and> d < 2 ^ 31"
  note g = get_entry_in_range [of h i, folded d_def n_def]
  {
    assume r: "0 \<le> d \<and> d < int n"
    show "find_inode h i \<noteq> Inr None"
      using a r by (simp add: find_inode_def g table_at_def bnd_def)
    assume "entry_index (meta h) ! nat d < length (entries (meta h))"
    then show "find_inode h i = Inr (Some (entries (meta h) ! (entry_index (meta h) ! nat d)))"
      using a r by (simp add: find_inode_def g table_at_def bnd_def)
  }
  {
    assume "\<not> (0 \<le> d \<and> d < int n)"
    then show "find_inode h i = Inr None"
      using a by (auto simp: find_inode_def g)
  }
next
  assume a: "metadata_v2_open m off = Inr h \<and> n < 2 ^ 31"
  note f = open_fields [OF a [THEN conjunct1]]
  have "get_entry h off = Inr (Some (root_c h))"
    using a f unfolding n_def by (subst get_entry_in_range) (simp_all add: table_at_def bnd_def)
  then show "find_inode h (off + 0) = Inr (Some (root_c h))"
    by (simp add: find_inode_def)
  show "root_c h = entries m ! (entry_index m ! 0)"
    by (rule f)
next
  assume a: "0 \<le> sint (inode_offset h)"
  have "sint (inode_offset h) < 2 ^ 31"
    using sint_lt [of "inode_offset h"] by simp
  then have "sint (- 1 - inode_offset h) = - 1 - sint (inode_offset h)"
    using a sint_sub_no_overflow [of "- 1" "inode_offset h"] by simp
  then show "find_inode h (- 1) = Inr None"
    using a by (simp add: find_inode_def get_entry_def Let_def)
qed

theorem find_inode_law_witness:
  "length (entry_index (meta big)) < 2 ^ 31 \<and>
   - (2 ^ 31) \<le> sint (101 :: 32 word) - sint (inode_offset big) \<and>
   sint (101 :: 32 word) - sint (inode_offset big) < 2 ^ 31 \<and>
   find_inode big 101 = Inr (Some big_file) \<and>
   find_inode big 103 = Inr None \<and>
   metadata_v2_open big_meta 100 = Inr big \<and>
   find_inode big (100 + 0) = Inr (Some (root_c big)) \<and>
   0 \<le> sint (inode_offset big) \<and>
   find_inode big (- 1) = Inr None"
proof -
  have h: "length (entry_index (meta big)) < 2 ^ 31" "0 \<le> sint (inode_offset big)"
    by (simp_all add: big_def big_meta_def)
  have r1: "- (2 ^ 31) \<le> sint (101 :: 32 word) - sint (inode_offset big)"
    "sint (101 :: 32 word) - sint (inode_offset big) < 2 ^ 31"
    "0 \<le> sint (101 :: 32 word) - sint (inode_offset big) \<and>
     sint (101 :: 32 word) - sint (inode_offset big) < int (length (entry_index (meta big)))"
    "entry_index (meta big) ! nat (sint (101 :: 32 word) - sint (inode_offset big))
       < length (entries (meta big))"
    by (simp_all add: big_def big_meta_def)
  have r3: "- (2 ^ 31) \<le> sint (103 :: 32 word) - sint (inode_offset big)"
    "sint (103 :: 32 word) - sint (inode_offset big) < 2 ^ 31"
    "\<not> (0 \<le> sint (103 :: 32 word) - sint (inode_offset big) \<and>
     sint (103 :: 32 word) - sint (inode_offset big) < int (length (entry_index (meta big))))"
    by (simp_all add: big_def big_meta_def)
  have "find_inode big 101 =
      Inr (Some (entries (meta big) !
        (entry_index (meta big) ! nat (sint (101 :: 32 word) - sint (inode_offset big)))))"
    using find_inode_law [of big 101] h(1) r1 by blast
  then have a1: "find_inode big 101 = Inr (Some big_file)"
    by (simp add: big_def big_meta_def big_file_def)
  have a3: "find_inode big 103 = Inr None"
    using find_inode_law [of big 103] h(1) r3 by blast
  have b: "find_inode big (100 + 0) = Inr (Some (root_c big))"
    using find_inode_law [of big _ big_meta 100] big_open h(1) by blast
  have c: "find_inode big (- 1) = Inr None"
    using find_inode_law [of big] h(2) by blast
  show ?thesis
    using h r1(1,2) a1 a3 big_open b c by simp
qed

subsection \<open>Lookup by path\<close>

text \<open>
  Claim C10. On an opened record, a path made of \<open>/\<close> characters only, the empty path
  included, resolves to the root entry \<open>entries[entry_index[0]]\<close>.
\<close>

theorem find_path_only_slashes:
  "metadata_v2_open m off = Inr h \<Longrightarrow> set p \<subseteq> {CHR ''/''} \<Longrightarrow>
   find_path h p = Inr (Some (root_c h)) \<and> root_c h = entries m ! (entry_index m ! 0)"
proof -
  assume o: "metadata_v2_open m off = Inr h" and p: "set p \<subseteq> {CHR ''/''}"
  have "dropWhile (\<lambda>c. c = CHR ''/'') p = []"
    using p by (auto simp: dropWhile_eq_Nil_conv)
  then show ?thesis
    using open_fields(5) [OF o] by (simp add: find_path_def find_loop.simps)
qed

theorem find_path_only_slashes_witness:
  "metadata_v2_open abc_meta 0 = Inr abc \<and> set ''///'' \<subseteq> {CHR ''/''} \<and>
   find_path abc [] = Inr (Some \<lparr>name_index = 0, mode = 0, inode = 0\<rparr>) \<and>
   find_path abc ''/'' = Inr (Some \<lparr>name_index = 0, mode = 0, inode = 0\<rparr>) \<and>
   find_path abc ''///'' = Inr (Some \<lparr>name_index = 0, mode = 0, inode = 0\<rparr>)"
proof -
  have r: "root_c abc = \<lparr>name_index = 0, mode = 0, inode = 0\<rparr>"
    by (simp add: abc_def)
  have "find_path abc [] = Inr (Some (root_c abc))"
    using find_path_only_slashes [OF abc_open, of "[]"] by simp
  moreover have "find_path abc ''/'' = Inr (Some (root_c abc))"
    using find_path_only_slashes [OF abc_open, of "''/''"] by simp
  moreover have "find_path abc ''///'' = Inr (Some (root_c abc))"
    using find_path_only_slashes [OF abc_open, of "''///''"] by simp
  ultimately show ?thesis
    using abc_open r by simp
qed

text \<open>
  In the record \<open>nested\<close> the path \<open>/a/b\<close> resolves to the file \<open>b\<close>. With the
  slashes repeated the second segment is empty, it is looked up as a name in \<open>a\<close>, and the
  result is "not found".
\<close>

theorem find_path_repeated_slash_counterexample:
  "metadata_v2_open nested_meta 0 = Inr nested \<and>
   find_path nested ''/a/b'' = Inr (Some \<lparr>name_index = 2, mode = 1, inode = 2\<rparr>) \<and>
   find_path nested ''///a//b///'' = Inr None"
  using nested_open by (simp add: find_simps tbl_simps nested_def nested_meta_def)

lemma strchr_Some: "strchr p c = Some n \<Longrightarrow> n < length p \<and> p ! n = c"
  by (induction p arbitrary: n) (auto split: if_splits)

lemma strchr_append_Some: "strchr p c = Some n \<Longrightarrow> strchr (p @ q) c = Some n"
  by (induction p arbitrary: n) (auto split: if_splits)

lemma strchr_append_None: "strchr p c = None \<Longrightarrow> strchr (p @ [c]) c = Some (length p)"
  by (induction p) (auto split: if_splits)

lemma dropWhile_replicate_append:
  "P x \<Longrightarrow> dropWhile P (replicate n x @ p) = dropWhile P p"
  by (induction n) auto

lemma dropWhile_append_last:
  "p \<noteq> [] \<Longrightarrow> \<not> P (last p) \<Longrightarrow> dropWhile P (p @ q) = dropWhile P p @ q"
  by (rule dropWhile_append1[of "last p"]) auto

lemma dropWhile_last:
  "p \<noteq> [] \<Longrightarrow> \<not> P (last p) \<Longrightarrow> dropWhile P p \<noteq> [] \<and> last (dropWhile P p) = last p"
  by (induction p) (auto split: if_splits)

lemma find_loop_trailing_slash:
  "q \<noteq> [] \<Longrightarrow> last q \<noteq> CHR ''/'' \<Longrightarrow> find_loop h e (q @ ''/'') = find_loop h e q"
proof (induction h e q rule: find_loop.induct)
  case (1 h e path)
  note ne = \<open>path \<noteq> []\<close> and lst = \<open>last path \<noteq> CHR ''/''\<close>
  show ?case
  proof (cases "strchr path CHR ''/''")
    case None
    then have nx: "strchr (path @ ''/'') CHR ''/'' = Some (length path)"
      by (simp add: strchr_append_None)
    show ?thesis
      apply (subst find_loop.simps)
      apply (subst (2) find_loop.simps)
      using None nx ne by (simp add: Let_def split: sum.splits option.splits)
  next
    case (Some n)
    then have n: "n < length path" "path ! n = CHR ''/''"
      using strchr_Some by blast+
    have nx: "strchr (path @ ''/'') CHR ''/'' = Some n"
      using Some by (simp add: strchr_append_Some)
    have "n \<noteq> length path - 1"
      using n lst ne by (auto simp: last_conv_nth)
    then have lt: "n + 1 < length path" using n by arith
    then have rest: "drop (n + 1) path \<noteq> []" "last (drop (n + 1) path) = last path"
      by auto
    have IH: "\<And>dir e'. getdir h e = Inr dir \<Longrightarrow> find_dir h dir (take n path) = Inr (Some e') \<Longrightarrow>
       find_loop h e' (drop (n + 1) path @ ''/'') = find_loop h e' (drop (n + 1) path)"
      using "1.IH"[OF ne refl refl _ _ _] Some rest lst by simp
    show ?thesis
      apply (subst find_loop.simps)
      apply (subst (2) find_loop.simps)
      using Some nx ne n lt IH by (simp add: Let_def split: sum.splits option.splits)
  qed
qed

text \<open>
  One step of the path loop: a segment that ends at a \<open>/\<close> is looked up in the directory
  of the current entry, whether it is empty or not, and the loop goes on behind the \<open>/\<close>.
  Resolving a path and then what follows its \<open>/\<close> is the same as resolving the two joined.
\<close>

lemma strchr_first: "c \<notin> set p \<Longrightarrow> strchr (p @ c # q) c = Some (length p)"
  by (induction p) auto

lemma strchr_None: "strchr p c = None \<Longrightarrow> c \<notin> set p"
  by (induction p) (auto split: if_splits)

lemma find_loop_segment:
  assumes "CHR ''/'' \<notin> set seg"
  shows "find_loop h e (seg @ CHR ''/'' # rest) =
     (case getdir h e of
        Inl err \<Rightarrow> Inl err
      | Inr dir \<Rightarrow>
          (case find_dir h dir seg of
             Inl err \<Rightarrow> Inl err
           | Inr None \<Rightarrow> Inr None
           | Inr (Some e') \<Rightarrow> find_loop h e' rest))"
  by (subst find_loop.simps)
    (simp add: strchr_first [OF assms] Let_def split: sum.splits option.splits)

lemma find_loop_last_segment:
  assumes "CHR ''/'' \<notin> set seg" "seg \<noteq> []"
  shows "find_loop h e seg =
     (case getdir h e of
        Inl err \<Rightarrow> Inl err
      | Inr dir \<Rightarrow>
          (case find_dir h dir seg of
             Inl err \<Rightarrow> Inl err
           | Inr None \<Rightarrow> Inr None
           | Inr (Some e') \<Rightarrow> Inr (Some e')))"
proof -
  have "strchr seg CHR ''/'' = None"
    using assms(1) by (induction seg) auto
  then show ?thesis
    using assms(2)
    by (subst find_loop.simps) (simp add: Let_def find_loop.simps [of _ _ "[]"] split: sum.splits option.splits)
qed

lemma find_loop_after:
  "p \<noteq> [] \<Longrightarrow> last p \<noteq> CHR ''/'' \<Longrightarrow>
   find_loop h e (p @ CHR ''/'' # q) =
     (case find_loop h e p of
        Inl err \<Rightarrow> Inl err
      | Inr None \<Rightarrow> Inr None
      | Inr (Some e') \<Rightarrow> find_loop h e' q)"
proof (induction h e p rule: find_loop.induct)
  case (1 h e path)
  note ne = \<open>path \<noteq> []\<close> and lst = \<open>last path \<noteq> CHR ''/''\<close>
  show ?case
  proof (cases "strchr path CHR ''/''")
    case None
    then have ns: "CHR ''/'' \<notin> set path"
      by (rule strchr_None)
    show ?thesis
      by (simp add: find_loop_segment [OF ns] find_loop_last_segment [OF ns ne]
          split: sum.splits option.splits)
  next
    case (Some n)
    then have n: "n < length path" "path ! n = CHR ''/''"
      using strchr_Some by blast+
    have nx: "strchr (path @ CHR ''/'' # q) CHR ''/'' = Some n"
      using Some by (simp add: strchr_append_Some)
    have "n \<noteq> length path - 1"
      using n lst ne by (auto simp: last_conv_nth)
    then have lt: "n + 1 < length path" using n by arith
    then have rest: "drop (n + 1) path \<noteq> []" "last (drop (n + 1) path) = last path"
      by auto
    have IH: "\<And>dir e'. getdir h e = Inr dir \<Longrightarrow> find_dir h dir (take n path) = Inr (Some e') \<Longrightarrow>
       find_loop h e' (drop (n + 1) path @ CHR ''/'' # q) =
         (case find_loop h e' (drop (n + 1) path) of
            Inl err \<Rightarrow> Inl err
          | Inr None \<Rightarrow> Inr None
          | Inr (Some e'') \<Rightarrow> find_loop h e'' q)"
      using "1.IH"[OF ne refl refl _ _ _] Some rest lst by simp
    have L: "find_loop h e (path @ CHR ''/'' # q) =
       (case getdir h e of
          Inl err \<Rightarrow> Inl err
        | Inr dir \<Rightarrow>
            (case find_dir h dir (take n path) of
               Inl err \<Rightarrow> Inl err
             | Inr None \<Rightarrow> Inr None
             | Inr (Some e') \<Rightarrow> find_loop h e' (drop (n + 1) path @ CHR ''/'' # q)))"
      using n lt
      by (subst find_loop.simps) (simp add: nx Let_def split: sum.splits option.splits)
    have R: "find_loop h e path =
       (case getdir h e of
          Inl err \<Rightarrow> Inl err
        | Inr dir \<Rightarrow>
            (case find_dir h dir (take n path) of
               Inl err \<Rightarrow> Inl err
             | Inr None \<Rightarrow> Inr None
             | Inr (Some e') \<Rightarrow> find_loop h e' (drop (n + 1) path)))"
      using ne
      by (subst find_loop.simps) (simp add: Some Let_def split: sum.splits option.splits)
    show ?thesis
      unfolding L R using IH by (auto split: sum.splits option.splits)
  qed
qed


text \<open>
  Claim C2, amended. \<^verbatim>\<open>find(const char*)\<close> skips the \<open>/\<close> characters in front of a path,
  however many, and tolerates one \<open>/\<close> after its last segment: putting \<open>/\<close> characters in
  front of a path does not change the result, and neither does one \<open>/\<close> added to a path
  that does not end in \<open>/\<close>. Empty segments between or after segments are not skipped:
  what follows the \<open>/\<close> behind a path is resolved from the entry that the path resolves to,
  and there a further \<open>/\<close> makes the empty name be looked up in the directory of that
  entry, which can only find a child whose name is empty.
\<close>

theorem find_path_slashes:
  "find_path h (replicate n CHR ''/'' @ p) = find_path h p \<and>
   (p \<noteq> [] \<and> last p \<noteq> CHR ''/'' \<longrightarrow> find_path h (p @ ''/'') = find_path h p) \<and>
   (p \<noteq> [] \<and> last p \<noteq> CHR ''/'' \<longrightarrow>
      find_path h (p @ CHR ''/'' # q) =
        (case find_path h p of
           Inl err \<Rightarrow> Inl err
         | Inr None \<Rightarrow> Inr None
         | Inr (Some e') \<Rightarrow> find_loop h e' q)) \<and>
   find_loop h e (CHR ''/'' # q) =
     (case getdir h e of
        Inl err \<Rightarrow> Inl err
      | Inr dir \<Rightarrow>
          (case find_dir h dir [] of
             Inl err \<Rightarrow> Inl err
           | Inr None \<Rightarrow> Inr None
           | Inr (Some e') \<Rightarrow> find_loop h e' q)) \<and>
   (find_dir h d [] = Inr (Some c) \<longrightarrow> entry_name h c = Inr [])"
proof (intro conjI impI)
  show "find_path h (replicate n CHR ''/'' @ p) = find_path h p"
    by (simp add: find_path_def dropWhile_replicate_append)
next
  assume a: "p \<noteq> [] \<and> last p \<noteq> CHR ''/''"
  let ?q = "dropWhile (\<lambda>c. c = CHR ''/'') p"
  have d: "dropWhile (\<lambda>c. c = CHR ''/'') (p @ ''/'') = ?q @ ''/''"
    using a by (simp add: dropWhile_append_last)
  have q: "?q \<noteq> []" "last ?q \<noteq> CHR ''/''"
    using a dropWhile_last [of p "\<lambda>c. c = CHR ''/''"] by simp_all
  have "find_path h (p @ ''/'') = find_loop h (root_c h) (?q @ ''/'')"
    by (simp only: find_path_def d)
  also have "\<dots> = find_loop h (root_c h) ?q"
    by (rule find_loop_trailing_slash [OF q])
  finally show "find_path h (p @ ''/'') = find_path h p"
    by (simp only: find_path_def)
next
  assume a: "p \<noteq> [] \<and> last p \<noteq> CHR ''/''"
  let ?q = "dropWhile (\<lambda>c. c = CHR ''/'') p"
  have d: "dropWhile (\<lambda>c. c = CHR ''/'') (p @ CHR ''/'' # q) = ?q @ CHR ''/'' # q"
    using a by (simp add: dropWhile_append_last)
  have q: "?q \<noteq> []" "last ?q \<noteq> CHR ''/''"
    using a dropWhile_last [of p "\<lambda>c. c = CHR ''/''"] by simp_all
  have "find_path h (p @ CHR ''/'' # q) = find_loop h (root_c h) (?q @ CHR ''/'' # q)"
    by (simp only: find_path_def d)
  also have "\<dots> =
      (case find_loop h (root_c h) ?q of
         Inl err \<Rightarrow> Inl err
       | Inr None \<Rightarrow> Inr None
       | Inr (Some e') \<Rightarrow> find_loop h e' q)"
    by (rule find_loop_after [OF q])
  finally show "find_path h (p @ CHR ''/'' # q) =
        (case find_path h p of
           Inl err \<Rightarrow> Inl err
         | Inr None \<Rightarrow> Inr None
         | Inr (Some e') \<Rightarrow> find_loop h e' q)"
    by (simp only: find_path_def)
next
  show "find_loop h e (CHR ''/'' # q) =
     (case getdir h e of
        Inl err \<Rightarrow> Inl err
      | Inr dir \<Rightarrow>
          (case find_dir h dir [] of
             Inl err \<Rightarrow> Inl err
           | Inr None \<Rightarrow> Inr None
           | Inr (Some e') \<Rightarrow> find_loop h e' q))"
    using find_loop_segment [of "[]" h e q] by simp
next
  assume "find_dir h d [] = Inr (Some c)"
  then show "entry_name h c = Inr []"
    using find_dir_sound by blast
qed

theorem find_path_slashes_witness:
  "''/a/b'' \<noteq> [] \<and> last ''/a/b'' \<noteq> CHR ''/'' \<and>
   find_path nested ''///a/b/'' = Inr (Some \<lparr>name_index = 2, mode = 1, inode = 2\<rparr>) \<and>
   ''/a'' \<noteq> [] \<and> last ''/a'' \<noteq> CHR ''/'' \<and>
   find_path nested ''/a'' = Inr (Some \<lparr>name_index = 1, mode = 0, inode = 1\<rparr>) \<and>
   find_path nested ''/a//b'' = Inr None \<and>
   find_path nested ''/a//'' = Inr None"
proof -
  let ?a = "\<lparr>name_index = 1, mode = 0, inode = 1\<rparr>"
  have p: "''/a/b'' \<noteq> [] \<and> last ''/a/b'' \<noteq> CHR ''/''"
    by simp
  have "find_path nested ''///a/b/'' = find_path nested (replicate 2 CHR ''/'' @ ''/a/b/'')"
    by (simp add: numeral_2_eq_2)
  also have "\<dots> = find_path nested (''/a/b'' @ ''/'')"
    using find_path_slashes [of nested 2 "''/a/b/''"] by simp
  also have "\<dots> = find_path nested ''/a/b''"
    using find_path_slashes [of nested 0 "''/a/b''"] p by blast
  also have "\<dots> = Inr (Some \<lparr>name_index = 2, mode = 1, inode = 2\<rparr>)"
    by (simp add: find_simps tbl_simps nested_def nested_meta_def)
  finally have one: "find_path nested ''///a/b/'' = Inr (Some \<lparr>name_index = 2, mode = 1, inode = 2\<rparr>)" .
  have pa: "''/a'' \<noteq> [] \<and> last ''/a'' \<noteq> CHR ''/''"
    by simp
  have a: "find_path nested ''/a'' = Inr (Some ?a)"
    by (simp add: find_simps tbl_simps nested_def nested_meta_def)
  have g: "getdir nested ?a = Inr \<lparr>first_entry = 2, entry_count = 1\<rparr>"
    by (simp add: tbl_simps nested_def nested_meta_def)
  have e: "find_dir nested \<lparr>first_entry = 2, entry_count = 1\<rparr> [] = Inr None"
    by (simp add: find_simps tbl_simps nested_def nested_meta_def)
  have empty: "find_loop nested ?a (CHR ''/'' # q) = Inr None" for q
  proof -
    have "find_loop nested ?a (CHR ''/'' # q) =
       (case getdir nested ?a of
          Inl err \<Rightarrow> Inl err
        | Inr dir \<Rightarrow>
            (case find_dir nested dir [] of
               Inl err \<Rightarrow> Inl err
             | Inr None \<Rightarrow> Inr None
             | Inr (Some e') \<Rightarrow> find_loop nested e' q))"
      using find_path_slashes [of nested 0 "[]" q ?a] by blast
    then show ?thesis
      by (simp only: g e sum.case option.case)
  qed
  have after: "find_path nested (''/a'' @ CHR ''/'' # q) = find_loop nested ?a q" for q
  proof -
    have "find_path nested (''/a'' @ CHR ''/'' # q) =
        (case find_path nested ''/a'' of
           Inl err \<Rightarrow> Inl err
         | Inr None \<Rightarrow> Inr None
         | Inr (Some e') \<Rightarrow> find_loop nested e' q)"
      using find_path_slashes [of nested 0 "''/a''" q] pa by blast
    then show ?thesis
      by (simp only: a sum.case option.case)
  qed
  have two: "find_path nested ''/a//b'' = Inr None"
    using after [of "''/b''"] empty [of "''b''"] by simp
  have three: "find_path nested ''/a//'' = Inr None"
    using after [of "''/''"] empty [of "[]"] by simp
  show ?thesis
    using p one pa a two three by simp
qed

subsection \<open>File sizes and attributes\<close>


lemma regular_not_link: "S_ISREG m \<Longrightarrow> \<not> S_ISLNK m"
  by (simp add: type_bits)





















end
